theory Spec2Isabelle
  imports Complex_Main "HOL-Library.Log_Nat"
begin

section \<open>Python numbers: true division, float product, truncation\<close>

text \<open>
  The worker computes \<^verbatim>\<open>int((i + 1) / total_files * 100)\<close>. In Python \<^verbatim>\<open>/\<close> on two
  ints is true division: the exact quotient rounded to the nearest IEEE 754 binary64
  value, ties to even. The product with \<^verbatim>\<open>100\<close> is rounded the same way, and
  \<^verbatim>\<open>int\<close> truncates towards zero. A float is modelled by the rational it denotes;
  \<open>binary64\<close> rounds a rational to 53 significant bits. The exponent range is not
  bounded here: the values of the program are quotients \<open>(i + 1) / n\<close> of list
  positions and their products with 100, far from overflow and from the subnormal range.
\<close>

definition rne :: "rat \<Rightarrow> int" where
  \<comment> \<open>round to the nearest integer, ties to the even one\<close>
  "rne x = (let f = \<lfloor>x\<rfloor>; r = x - of_int f
            in if r < 1 / 2 then f else if 1 / 2 < r then f + 1
               else if even f then f else f + 1)"

definition ilog2 :: "rat \<Rightarrow> int" where
  \<comment> \<open>for \<open>0 < x\<close>, the \<open>k\<close> with \<open>2 powi k \<le> x < 2 powi (k + 1)\<close>\<close>
  "ilog2 x = (case quotient_of x of (p, q) \<Rightarrow>
     let k = bitlen p - bitlen q in if 2 powi k \<le> x then k else k - 1)"

definition binary64 :: "rat \<Rightarrow> rat" where
  "binary64 x = (if x = 0 then 0 else
     let e = ilog2 \<bar>x\<bar> - 52 in of_int (rne (x * 2 powi (- e))) * 2 powi e)"

definition py_truediv :: "int \<Rightarrow> int \<Rightarrow> string + rat" where
  "py_truediv a b =
     (if b = 0 then Inl ''division by zero'' else Inr (binary64 (of_int a / of_int b)))"

definition py_float_mul :: "rat \<Rightarrow> rat \<Rightarrow> rat" where
  "py_float_mul x y = binary64 (x * y)"

definition py_int :: "rat \<Rightarrow> int" where
  "py_int x = (if 0 \<le> x then \<lfloor>x\<rfloor> else \<lceil>x\<rceil>)"

definition py_round :: "rat \<Rightarrow> int" where
  \<comment> \<open>Python's \<^verbatim>\<open>round(x)\<close> with one argument: nearest integer, ties to even\<close>
  "py_round x = rne x"

fun digits :: "nat \<Rightarrow> string" where
  "digits n = (if n < 10 then [char_of (48 + n)]
               else digits (n div 10) @ [char_of (48 + n mod 10)])"

definition py_str_int :: "int \<Rightarrow> string" where
  "py_str_int v = (if v < 0 then CHR ''-'' # digits (nat (- v)) else digits (nat v))"

section \<open>Python strings and paths\<close>

text \<open>
  \<^verbatim>\<open>os.path\<close> is modelled in its POSIX flavour (\<^verbatim>\<open>posixpath\<close>): the separator is
  \<^verbatim>\<open>/\<close>, the extension separator is the dot.
\<close>

type_synonym path = string

definition dquote :: char where
  "dquote = CHR 0x22"

definition squote :: char where
  "squote = CHR 0x27"

definition str_rfind :: "string \<Rightarrow> char \<Rightarrow> int" where
  \<comment> \<open>\<^verbatim>\<open>s.rfind(c)\<close>: the highest index of \<open>c\<close>, or \<open>-1\<close>\<close>
  "str_rfind s c = (case filter (\<lambda>i. s ! i = c) (rev [0..<length s]) of
                      [] \<Rightarrow> - 1 | i # _ \<Rightarrow> int i)"

definition str_endswith :: "string \<Rightarrow> string \<Rightarrow> bool" where
  "str_endswith s suf \<longleftrightarrow> length suf \<le> length s \<and> drop (length s - length suf) s = suf"

definition lower_char :: "char \<Rightarrow> char" where
  "lower_char c = (let n = (of_char c :: nat)
                   in if 65 \<le> n \<and> n \<le> 90 then char_of (n + 32) else c)"

definition str_lower :: "string \<Rightarrow> string" where
  "str_lower s = map lower_char s"

definition os_path_basename :: "path \<Rightarrow> path" where
  \<comment> \<open>\<^verbatim>\<open>i = p.rfind('/') + 1; return p[i:]\<close>\<close>
  "os_path_basename p = drop (nat (str_rfind p CHR ''/'' + 1)) p"

definition os_path_splitext :: "path \<Rightarrow> path \<times> string" where
  \<comment> \<open>the last dot splits, unless it comes before the last separator or only dots
      stand between the separator and it\<close>
  "os_path_splitext p =
     (let sepIndex = str_rfind p CHR ''/''; dotIndex = str_rfind p CHR ''.''
      in if sepIndex < dotIndex \<and>
            list_ex (\<lambda>k. p ! k \<noteq> CHR ''.'') [nat (sepIndex + 1)..<nat dotIndex]
         then (take (nat dotIndex) p, drop (nat dotIndex) p)
         else (p, []))"

definition os_path_join :: "path \<Rightarrow> path \<Rightarrow> path" where
  "os_path_join a b =
     (if b \<noteq> [] \<and> hd b = CHR ''/'' then b
      else if a = [] \<or> last a = CHR ''/'' then a @ b
      else a @ ''/'' @ b)"

section \<open>The file system and the external collaborators\<close>

datatype syscall =
    Save path
  | is_Launch: Launch string
  | Remove path
  | Rename path path

record world =
  disk :: "path \<rightharpoonup> string"
  calls :: "syscall list"

text \<open>
  What the program does not decide is a parameter: whether the imaging library can
  decode a file and encode it as PNG, and what the shell does with a command line.
  An \<open>Inl\<close> is the text of the exception raised.
\<close>

record ext =
  image_open :: "(path \<rightharpoonup> string) \<Rightarrow> path \<Rightarrow> string + string"
  image_save :: "string \<Rightarrow> path \<Rightarrow> (path \<rightharpoonup> string) \<Rightarrow> string + string"
  popen :: "string \<Rightarrow> (path \<rightharpoonup> string) \<Rightarrow> string + (int \<times> string \<times> (path \<rightharpoonup> string))"

definition os_path_exists :: "world \<Rightarrow> path \<Rightarrow> bool" where
  "os_path_exists w p \<longleftrightarrow> disk w p \<noteq> None"

definition no_such_file :: "string \<Rightarrow> string" where
  "no_such_file what = ''[Errno 2] No such file or directory: '' @ what"

definition os_remove :: "path \<Rightarrow> world \<Rightarrow> (string + unit) \<times> world" where
  "os_remove p w =
     (if disk w p = None then (Inl (no_such_file ([squote] @ p @ [squote])), w)
      else (Inr (), w\<lparr>disk := (disk w)(p := None), calls := calls w @ [Remove p]\<rparr>))"

definition os_rename :: "path \<Rightarrow> path \<Rightarrow> world \<Rightarrow> (string + unit) \<times> world" where
  "os_rename src dst w =
     (case disk w src of
        None \<Rightarrow> (Inl (no_such_file ([squote] @ src @ [squote] @ '' -> '' @ [squote] @ dst @ [squote])), w)
      | Some c \<Rightarrow> (Inr (), w\<lparr>disk := ((disk w)(src := None))(dst \<mapsto> c),
                              calls := calls w @ [Rename src dst]\<rparr>))"

section \<open>ConversionWorker\<close>

datatype event = is_Progress: Progress int | is_Finished: Finished | is_Error: Error string

record worker =
  files :: "path list"
  output_dir :: path
  dds_format :: string

definition compression_flag :: "string \<Rightarrow> string" where
  "compression_flag fmt =
     (if fmt = ''DXT1'' then ''-f DXT1''
      else if fmt = ''DXT3'' then ''-f DXT3''
      else if fmt = ''DXT5'' then ''-f DXT5''
      else ''-f DXT5'')"

definition texconv_cmd :: "string \<Rightarrow> path \<Rightarrow> path \<Rightarrow> string" where
  "texconv_cmd compression out temp_png =
     ''texconv -y '' @ compression @ '' -o '' @ [dquote] @ out @ [dquote] @ '' ''
       @ [dquote] @ temp_png @ [dquote]"

definition execute_conversion :: "ext \<Rightarrow> worker \<Rightarrow> path \<Rightarrow> world \<Rightarrow> (string + unit) \<times> world" where
  \<comment> \<open>lines 51 to 72: decode, write the temporary PNG, run the tool, check its exit code\<close>
  "execute_conversion X self input_path w =
     (case image_open X (disk w) input_path of
        Inl e \<Rightarrow> (Inl e, w)
      | Inr img \<Rightarrow>
          let temp_png = os_path_join (output_dir self) ''temp.png'' in
          (case image_save X img temp_png (disk w) of
             Inl e \<Rightarrow> (Inl e, w)
           | Inr png \<Rightarrow>
               let w1 = w\<lparr>disk := (disk w)(temp_png \<mapsto> png), calls := calls w @ [Save temp_png]\<rparr>;
                   compression = compression_flag (dds_format self);
                   cmd = texconv_cmd compression (output_dir self) temp_png;
                   w2 = w1\<lparr>calls := calls w1 @ [Launch cmd]\<rparr>
               in (case popen X cmd (disk w1) of
                     Inl e \<Rightarrow> (Inl e, w2)
                   | Inr (returncode, stderr, d) \<Rightarrow>
                       if returncode \<noteq> 0
                       then (Inl (''Conversion failed: '' @ stderr), w2\<lparr>disk := d\<rparr>)
                       else (Inr (), w2\<lparr>disk := d\<rparr>))))"

definition cleanup_temp_png :: "worker \<Rightarrow> world \<Rightarrow> (string + unit) \<times> world" where
  \<comment> \<open>lines 74 to 76\<close>
  "cleanup_temp_png self w =
     (let temp_png = os_path_join (output_dir self) ''temp.png''
      in if os_path_exists w temp_png then os_remove temp_png w else (Inr (), w))"

definition rename_output :: "worker \<Rightarrow> path \<Rightarrow> world \<Rightarrow> (string + unit) \<times> world" where
  \<comment> \<open>lines 78 to 85\<close>
  "rename_output self input_path w =
     (let base_name = fst (os_path_splitext (os_path_basename input_path));
          final_path = os_path_join (output_dir self) (base_name @ ''.dds'');
          temp_dds = os_path_join (output_dir self) ''temp.dds''
      in if os_path_exists w temp_dds then
           (if os_path_exists w final_path then
              (case os_remove final_path w of
                 (Inl e, w') \<Rightarrow> (Inl e, w')
               | (Inr _, w') \<Rightarrow> os_rename temp_dds final_path w')
            else os_rename temp_dds final_path w)
         else (Inr (), w))"

definition convert_to_dds :: "ext \<Rightarrow> worker \<Rightarrow> path \<Rightarrow> path \<Rightarrow> world \<Rightarrow> (string + unit) \<times> world" where
  \<comment> \<open>\<open>output_path\<close> is a parameter the body never reads, as in the source\<close>
  "convert_to_dds X self input_path output_path w =
     (case (case execute_conversion X self input_path w of
              (Inl e, w1) \<Rightarrow> (Inl e, w1)
            | (Inr _, w1) \<Rightarrow>
                (case cleanup_temp_png self w1 of
                   (Inl e, w2) \<Rightarrow> (Inl e, w2)
                 | (Inr _, w2) \<Rightarrow> rename_output self input_path w2)) of
        (Inl e, w') \<Rightarrow> (Inl (''Error converting '' @ input_path @ '': '' @ e), w')
      | (Inr u, w') \<Rightarrow> (Inr u, w'))"

definition progress_percent :: "nat \<Rightarrow> nat \<Rightarrow> string + int" where
  \<comment> \<open>\<^verbatim>\<open>int((i + 1) / total_files * 100)\<close>\<close>
  "progress_percent i total_files =
     (case py_truediv (int i + 1) (int total_files) of
        Inl e \<Rightarrow> Inl e
      | Inr q \<Rightarrow> Inr (py_int (py_float_mul q 100)))"

definition output_path_of :: "worker \<Rightarrow> path \<Rightarrow> path" where
  \<comment> \<open>lines 99 to 101\<close>
  "output_path_of self file_path =
     (let filename = os_path_basename file_path;
          name_without_ext = fst (os_path_splitext filename)
      in os_path_join (output_dir self) (name_without_ext @ ''.dds''))"

fun run_loop :: "ext \<Rightarrow> worker \<Rightarrow> nat \<Rightarrow> nat \<Rightarrow> path list \<Rightarrow> world \<Rightarrow> event list \<times> world" where
  "run_loop X self total_files i [] w = ([], w)"
| "run_loop X self total_files i (file_path # rest) w =
     (let output_path = output_path_of self file_path;
          (r, w') = convert_to_dds X self file_path output_path w;
          ev = (case r of
                  Inl e \<Rightarrow> Error e
                | Inr _ \<Rightarrow>
                    (case progress_percent i total_files of
                       Inl e \<Rightarrow> Error e
                     | Inr progress \<Rightarrow> Progress progress));
          (evs, w'') = run_loop X self total_files (Suc i) rest w'
      in (ev # evs, w''))"

definition run :: "ext \<Rightarrow> worker \<Rightarrow> world \<Rightarrow> event list \<times> world" where
  "run X self w =
     (let total_files = length (files self);
          (evs, w') = run_loop X self total_files 0 (files self) w
      in (evs @ [Finished], w'))"

text \<open>
  The conversions of a job in order: for each file the world it was started in and
  whether \<open>convert_to_dds\<close> returned (\<open>Inr\<close>) or raised (\<open>Inl\<close>, with the message).
\<close>

fun conversions :: "ext \<Rightarrow> worker \<Rightarrow> path list \<Rightarrow> world \<Rightarrow> (world \<times> (string + unit)) list" where
  "conversions X self [] w = []"
| "conversions X self (file_path # rest) w =
     (let (r, w') = convert_to_dds X self file_path (output_path_of self file_path) w
      in (w, r) # conversions X self rest w')"

definition truncated_percent :: "nat \<Rightarrow> nat \<Rightarrow> int" where
  \<comment> \<open>the binary64 value of \<open>(i + 1) / n * 100\<close>, rounded down\<close>
  "truncated_percent i n = \<lfloor>binary64 (binary64 (of_nat (i + 1) / of_nat n) * 100)\<rfloor>"

definition rounded_percent :: "nat \<Rightarrow> nat \<Rightarrow> int" where
  \<comment> \<open>the same value rounded to the nearest integer, as \<^verbatim>\<open>round((i+1)/N*100)\<close> reads\<close>
  "rounded_percent i n = py_round (binary64 (binary64 (of_nat (i + 1) / of_nat n) * 100))"

definition all_converted :: "ext \<Rightarrow> worker \<Rightarrow> world \<Rightarrow> bool" where
  \<comment> \<open>every file of the job converts: no call of \<open>convert_to_dds\<close> raises\<close>
  "all_converted X self w \<longleftrightarrow> list_all (\<lambda>c. \<not> isl (snd c)) (conversions X self (files self) w)"

definition world_after :: "ext \<Rightarrow> worker \<Rightarrow> world \<Rightarrow> nat \<Rightarrow> world" where
  \<comment> \<open>the world when the loop of \<open>run\<close> has processed the files up to position \<open>k\<close>\<close>
  "world_after X self w k =
     snd (run_loop X self (length (files self)) 0 (take (Suc k) (files self)) w)"

definition tool_result ::
  "ext \<Rightarrow> worker \<Rightarrow> path \<Rightarrow> world \<Rightarrow> (string + (int \<times> string \<times> (path \<rightharpoonup> string))) option" where
  \<comment> \<open>what launching the tool for this file gives, when the file is decoded and saved so
      that line 68 is reached\<close>
  "tool_result X self input_path w =
     (case image_open X (disk w) input_path of
        Inl e \<Rightarrow> None
      | Inr img \<Rightarrow>
          let temp_png = os_path_join (output_dir self) ''temp.png'' in
          (case image_save X img temp_png (disk w) of
             Inl e \<Rightarrow> None
           | Inr png \<Rightarrow>
               Some (popen X (texconv_cmd (compression_flag (dds_format self)) (output_dir self) temp_png)
                       ((disk w)(temp_png \<mapsto> png)))))"

definition decode_fails :: "ext \<Rightarrow> path \<Rightarrow> world \<Rightarrow> bool" where
  "decode_fails X input_path w \<longleftrightarrow> isl (image_open X (disk w) input_path)"

definition launch_fails :: "ext \<Rightarrow> worker \<Rightarrow> path \<Rightarrow> world \<Rightarrow> bool" where
  "launch_fails X self input_path w \<longleftrightarrow>
     (case tool_result X self input_path w of Some (Inl e) \<Rightarrow> True | _ \<Rightarrow> False)"

definition nonzero_exit :: "ext \<Rightarrow> worker \<Rightarrow> path \<Rightarrow> world \<Rightarrow> bool" where
  "nonzero_exit X self input_path w \<longleftrightarrow>
     (case tool_result X self input_path w of
        Some (Inr (returncode, stderr, d)) \<Rightarrow> returncode \<noteq> 0 | _ \<Rightarrow> False)"

section \<open>ImageConverterApp\<close>

datatype ui_action =
    SetWindowTitle string
  | SetMinimumSize int int
  | SetupUi
  | is_CriticalBox: CriticalBox string string
  | is_WarningBox: WarningBox string string
  | is_InformationBox: InformationBox string string
  | ProgressBarSetVisible bool
  | ProgressBarSetValue int
  | StatusSetText string
  | FileBtnSetEnabled bool
  | FolderBtnSetEnabled bool
  | is_WorkerCreate: WorkerCreate worker
  | WorkerConnect
  | is_WorkerStart: WorkerStart
  | WindowShow
  | AppExec

definition is_dialog :: "ui_action \<Rightarrow> bool" where
  "is_dialog a \<longleftrightarrow> is_CriticalBox a \<or> is_WarningBox a \<or> is_InformationBox a"

definition check_texconv :: "(string list \<Rightarrow> string + int) \<Rightarrow> bool" where
  \<comment> \<open>\<open>subprocess_run\<close> is \<^verbatim>\<open>subprocess.run\<close>: \<open>Inl\<close> when it raises (the executable is
      not found), \<open>Inr\<close> the exit code otherwise; the bare \<^verbatim>\<open>except\<close> catches everything\<close>
  "check_texconv subprocess_run =
     (case subprocess_run [''texconv'', ''-help''] of Inl _ \<Rightarrow> False | Inr _ \<Rightarrow> True)"

definition app_init :: "(string list \<Rightarrow> string + int) \<Rightarrow> ui_action list \<times> (int + unit)" where
  \<comment> \<open>\<^verbatim>\<open>ImageConverterApp.__init__\<close>; \<open>Inl code\<close> is \<^verbatim>\<open>sys.exit(code)\<close>\<close>
  "app_init subprocess_run =
     (let acts = [SetWindowTitle ''Image to DDS Converter'', SetMinimumSize 600 400, SetupUi]
      in if \<not> check_texconv subprocess_run
         then (acts @ [CriticalBox ''Error''
                 ''texconv not found. Please download it and place in the application directory.''],
               Inl 1)
         else (acts, Inr ()))"

definition main :: "(string list \<Rightarrow> string + int) \<Rightarrow> int \<Rightarrow> ui_action list \<times> int" where
  \<comment> \<open>lines 297 to 301; \<open>exec_code\<close> is what \<^verbatim>\<open>app.exec()\<close> returns\<close>
  "main subprocess_run exec_code =
     (case app_init subprocess_run of
        (acts, Inl code) \<Rightarrow> (acts, code)
      | (acts, Inr _) \<Rightarrow> (acts @ [WindowShow, AppExec], exec_code))"

definition is_image_file :: "string \<Rightarrow> bool" where
  "is_image_file file =
     (let l = str_lower file
      in str_endswith l ''.png'' \<or> str_endswith l ''.jpg'' \<or> str_endswith l ''.jpeg''
         \<or> str_endswith l ''.svg'')"

definition convert_files :: "string \<Rightarrow> string \<Rightarrow> path list \<Rightarrow> ui_action list" where
  \<comment> \<open>\<open>output_dialog\<close> is the directory the user picks (empty when cancelled),
      \<open>format_text\<close> the current text of the format box\<close>
  "convert_files output_dialog format_text fs =
     (if output_dialog = [] then []
      else [ProgressBarSetVisible True, ProgressBarSetValue 0,
            WorkerCreate \<lparr>files = fs, output_dir = output_dialog, dds_format = format_text\<rparr>,
            WorkerConnect, WorkerStart,
            FileBtnSetEnabled False, FolderBtnSetEnabled False])"

definition select_file :: "string \<Rightarrow> string \<Rightarrow> string \<Rightarrow> ui_action list" where
  "select_file file_dialog output_dialog format_text =
     (if file_dialog \<noteq> [] then convert_files output_dialog format_text [file_dialog] else [])"

definition select_folder ::
  "string \<Rightarrow> (path \<Rightarrow> (path \<times> string list \<times> string list) list) \<Rightarrow> string \<Rightarrow> string \<Rightarrow> ui_action list" where
  \<comment> \<open>\<open>folder_dialog\<close> is the folder the user picks (empty when cancelled), \<open>os_walk\<close>
      lists \<open>(root, dirs, files)\<close> for every directory below it\<close>
  "select_folder folder_dialog os_walk output_dialog format_text =
     (if folder_dialog \<noteq> [] then
        (let image_files =
               concat (map (\<lambda>(root, dirs, fs). map (os_path_join root) (filter is_image_file fs))
                           (os_walk folder_dialog))
         in if image_files \<noteq> [] then convert_files output_dialog format_text image_files
            else [WarningBox ''Error'' ''No image files found in the selected folder.''])
      else [])"

definition update_progress :: "int \<Rightarrow> ui_action list" where
  "update_progress v =
     [ProgressBarSetValue v, StatusSetText (''Converting... '' @ py_str_int v @ ''%'')]"

definition conversion_finished :: "ui_action list" where
  "conversion_finished =
     [ProgressBarSetVisible False, StatusSetText ''Conversion completed successfully!'',
      FileBtnSetEnabled True, FolderBtnSetEnabled True,
      InformationBox ''Complete'' ''File conversion completed successfully.'']"

definition show_error :: "string \<Rightarrow> ui_action list" where
  "show_error error_message = [CriticalBox ''Error'' error_message]"

definition deliver :: "event \<Rightarrow> ui_action list" where
  \<comment> \<open>the three signal connections of \<open>convert_files\<close>, lines 271 to 273\<close>
  "deliver ev = (case ev of
                   Progress v \<Rightarrow> update_progress v
                 | Finished \<Rightarrow> conversion_finished
                 | Error m \<Rightarrow> show_error m)"

definition job_ui :: "ext \<Rightarrow> worker \<Rightarrow> world \<Rightarrow> ui_action list" where
  \<comment> \<open>what the window does in answer to the notifications of one job, in order\<close>
  "job_ui X self w = concat (map deliver (fst (run X self w)))"

section \<open>A concrete file system, imaging library and tool\<close>

definition sample_disk :: "path \<rightharpoonup> string" where
  "sample_disk = [''photo.jpg'' \<mapsto> ''photo'', ''in/a/logo.png'' \<mapsto> ''logo one'',
                  ''in/b/logo.svg'' \<mapsto> ''logo two'', ''in/big.png'' \<mapsto> ''odd'',
                  ''in/notes.txt'' \<mapsto> ''text'']"

definition sample_world :: world where
  "sample_world = \<lparr>disk = sample_disk, calls = []\<rparr>"

definition sample_ext :: ext where
  \<comment> \<open>decoding fails on a missing file and on the text file; the tool rejects the
      image \<open>odd\<close> with exit code 1 and writes \<open>temp.dds\<close> otherwise\<close>
  "sample_ext = \<lparr>
     image_open = (\<lambda>d p. case d p of
                      None \<Rightarrow> Inl (no_such_file ([squote] @ p @ [squote]))
                    | Some c \<Rightarrow> if c = ''text'' then Inl (''cannot identify image file'') else Inr c),
     image_save = (\<lambda>img p d. Inr (''PNG '' @ img)),
     popen = (\<lambda>cmd d. case d ''out/temp.png'' of
                 None \<Rightarrow> Inr (1, ''no input'', d)
               | Some png \<Rightarrow> if png = ''PNG odd'' then Inr (1, ''unsupported'', d)
                             else Inr (0, [], d(''out/temp.dds'' \<mapsto> ''DDS '' @ png)))\<rparr>"

definition broken_shell_ext :: ext where
  \<comment> \<open>as \<open>sample_ext\<close>, with a shell that cannot be started\<close>
  "broken_shell_ext = sample_ext\<lparr>popen := (\<lambda>cmd d. Inl ''[Errno 2] No such file or directory'')\<rparr>"

definition sample_job :: "path list \<Rightarrow> string \<Rightarrow> worker" where
  "sample_job fs fmt = \<lparr>files = fs, output_dir = ''out'', dds_format = fmt\<rparr>"

definition sample_walk :: "path \<Rightarrow> (path \<times> string list \<times> string list) list" where
  "sample_walk folder = (if folder = ''docs'' then [(''docs'', [''old''], [''notes.txt'', ''png'']),
                                                   (''docs/old'', [], [''readme.md''])]
                         else [(''in'', [], [''photo.JPG'', ''notes.txt''])])"

definition texconv_missing :: "string list \<Rightarrow> string + int" where
  \<comment> \<open>\<^verbatim>\<open>subprocess.run\<close> on a machine without the tool: it raises\<close>
  "texconv_missing argv = Inl (no_such_file ([squote] @ hd argv @ [squote]))"

section \<open>Rounding to binary64 is monotone\<close>

lemma bitlen_rat:
  assumes "0 < p"
  shows "(2::rat) powi (bitlen p - 1) \<le> of_int p" and "of_int p < (2::rat) powi (bitlen p)"
proof -
  have b: "0 < bitlen p" using assms
    by (metis bitlen_eq_zero_iff bitlen_nonneg less_le not_le)
  from bitlen_bounds [OF assms]
  have lo: "(2::int) ^ nat (bitlen p - 1) \<le> p" and hi: "p < (2::int) ^ nat (bitlen p)"
    by simp_all
  have "(2::rat) powi (bitlen p - 1) = of_int ((2::int) ^ nat (bitlen p - 1))"
    using b by (simp add: power_int_nonneg_exp)
  also have "\<dots> \<le> of_int p" using lo by (simp only: of_int_le_iff)
  finally show "(2::rat) powi (bitlen p - 1) \<le> of_int p" .
  have "of_int p < (of_int ((2::int) ^ nat (bitlen p)) :: rat)"
    using hi by (simp only: of_int_less_iff)
  also have "\<dots> = (2::rat) powi (bitlen p)"
    using b by (simp add: power_int_nonneg_exp)
  finally show "of_int p < (2::rat) powi (bitlen p)" .
qed

lemma ilog2_bounds:
  assumes "0 < x"
  shows "2 powi (ilog2 x) \<le> x" and "x < 2 powi (ilog2 x + 1)"
proof -
  obtain p q where pq: "quotient_of x = (p, q)" by (cases "quotient_of x")
  have q: "0 < q" using pq by (rule quotient_of_denom_pos)
  have x: "x = of_int p / of_int q" using pq by (rule quotient_of_div)
  have p: "0 < p" using assms q x by (simp add: zero_less_divide_iff)
  define k where "k = bitlen p - bitlen q"
  have il: "ilog2 x = (if 2 powi k \<le> x then k else k - 1)"
    by (simp add: ilog2_def pq k_def Let_def)
  have qr: "(0::rat) < of_int q" using q by simp
  have lo: "(2::rat) powi (k - 1) < x"
  proof -
    have "(2::rat) powi (k - 1) * of_int q < 2 powi (k - 1) * 2 powi (bitlen q)"
      using bitlen_rat(2) [OF q] by (simp add: mult_strict_left_mono)
    also have "\<dots> = 2 powi (bitlen p - 1)"
      by (simp add: k_def flip: power_int_add)
    also have "\<dots> \<le> of_int p" using bitlen_rat(1) [OF p] .
    finally show ?thesis using qr by (simp add: x pos_less_divide_eq)
  qed
  have hi: "x < (2::rat) powi (k + 1)"
  proof -
    have "of_int p < (2::rat) powi (bitlen p)" using bitlen_rat(2) [OF p] .
    also have "\<dots> = 2 powi (k + 1) * 2 powi (bitlen q - 1)"
      by (simp add: k_def flip: power_int_add)
    also have "\<dots> \<le> 2 powi (k + 1) * of_int q"
      using bitlen_rat(1) [OF q] by (simp add: mult_left_mono)
    finally show ?thesis using qr by (simp add: x pos_divide_less_eq)
  qed
  show "2 powi (ilog2 x) \<le> x" using lo by (simp add: il)
  show "x < 2 powi (ilog2 x + 1)" using hi by (auto simp: il not_le)
qed

lemma ilog2_mono:
  assumes "0 < x" "x \<le> y"
  shows "ilog2 x \<le> ilog2 y"
proof (rule ccontr)
  assume "\<not> ilog2 x \<le> ilog2 y"
  then have "ilog2 y + 1 \<le> ilog2 x" by simp
  then have "(2::rat) powi (ilog2 y + 1) \<le> 2 powi (ilog2 x)"
    by (intro power_int_increasing) simp_all
  also have "\<dots> \<le> x" using ilog2_bounds(1) [OF assms(1)] .
  also have "\<dots> \<le> y" by fact
  finally show False using ilog2_bounds(2) [of y] assms by simp
qed

lemma rne_cases: "rne x = \<lfloor>x\<rfloor> \<or> rne x = \<lfloor>x\<rfloor> + 1"
  by (simp add: rne_def Let_def)

lemma rne_of_int [simp]: "rne (of_int n) = n"
  by (simp add: rne_def)

lemma rne_ge_int:
  assumes "of_int n \<le> x" shows "n \<le> rne x"
proof -
  have "n \<le> \<lfloor>x\<rfloor>" using assms by (simp add: le_floor_iff)
  then show ?thesis using rne_cases [of x] by auto
qed

lemma rne_le_int:
  assumes "x \<le> of_int n" shows "rne x \<le> n"
proof (cases "x = of_int n")
  case True then show ?thesis by simp
next
  case False
  then have "x < of_int n" using assms by simp
  then have "\<lfloor>x\<rfloor> < n" by (simp add: floor_less_iff)
  then show ?thesis using rne_cases [of x] by auto
qed

lemma rne_mono:
  assumes "x \<le> y" shows "rne x \<le> rne y"
proof (cases "\<lfloor>x\<rfloor> = \<lfloor>y\<rfloor>")
  case True
  then show ?thesis using assms by (auto simp: rne_def Let_def)
next
  case False
  then have "\<lfloor>x\<rfloor> + 1 \<le> \<lfloor>y\<rfloor>" using floor_mono [OF assms] by simp
  then show ?thesis using rne_cases [of x] rne_cases [of y] by auto
qed

lemma binary64_pos_eq:
  assumes "0 < x"
  shows "binary64 x = of_int (rne (x * 2 powi (52 - ilog2 x))) * 2 powi (ilog2 x - 52)"
  using assms by (simp add: binary64_def Let_def)

lemma scaled_bounds:
  assumes "0 < x"
  shows "2 ^ 52 \<le> x * 2 powi (52 - ilog2 x)" and "x * 2 powi (52 - ilog2 x) \<le> 2 ^ 53"
proof -
  have p: "(0::rat) < 2 powi (52 - ilog2 x)" by simp
  have "(2::rat) ^ 52 = 2 powi (ilog2 x) * 2 powi (52 - ilog2 x)"
    by (simp flip: power_int_add)
  also have "\<dots> \<le> x * 2 powi (52 - ilog2 x)"
    using ilog2_bounds(1) [OF assms] p by (simp only: mult_right_mono less_imp_le)
  finally show "2 ^ 52 \<le> x * 2 powi (52 - ilog2 x)" .
  have "x * 2 powi (52 - ilog2 x) \<le> 2 powi (ilog2 x + 1) * 2 powi (52 - ilog2 x)"
    using ilog2_bounds(2) [OF assms] p by (simp only: mult_right_mono less_imp_le)
  also have "\<dots> = 2 ^ 53"
    by (simp flip: power_int_add)
  finally show "x * 2 powi (52 - ilog2 x) \<le> 2 ^ 53" .
qed

lemma significand_bounds:
  assumes "0 < x"
  shows "2 ^ 52 \<le> rne (x * 2 powi (52 - ilog2 x))" and "rne (x * 2 powi (52 - ilog2 x)) \<le> 2 ^ 53"
proof -
  have "of_int (2 ^ 52) \<le> x * 2 powi (52 - ilog2 x)"
    using scaled_bounds(1) [OF assms] by simp
  then show "2 ^ 52 \<le> rne (x * 2 powi (52 - ilog2 x))" by (rule rne_ge_int)
  have "x * 2 powi (52 - ilog2 x) \<le> of_int (2 ^ 53)"
    using scaled_bounds(2) [OF assms] by simp
  then show "rne (x * 2 powi (52 - ilog2 x)) \<le> 2 ^ 53" by (rule rne_le_int)
qed

lemma binary64_bounds:
  assumes "0 < x"
  shows "2 powi (ilog2 x) \<le> binary64 x" and "binary64 x \<le> 2 powi (ilog2 x + 1)"
proof -
  have p: "(0::rat) \<le> 2 powi (ilog2 x - 52)" by simp
  have "(2::rat) powi (ilog2 x) = 2 powi 52 * 2 powi (ilog2 x - 52)"
    by (subst power_int_add [symmetric]) simp_all
  also have "\<dots> = of_int (2 ^ 52) * 2 powi (ilog2 x - 52)"
    by simp
  also have "\<dots> \<le> of_int (rne (x * 2 powi (52 - ilog2 x))) * 2 powi (ilog2 x - 52)"
    using significand_bounds(1) [OF assms] p by (intro mult_right_mono) (simp_all only: of_int_le_iff)
  finally show "2 powi (ilog2 x) \<le> binary64 x" by (simp only: binary64_pos_eq [OF assms])
  have "of_int (rne (x * 2 powi (52 - ilog2 x))) * 2 powi (ilog2 x - 52)
          \<le> (of_int (2 ^ 53) :: rat) * 2 powi (ilog2 x - 52)"
    using significand_bounds(2) [OF assms] p by (intro mult_right_mono) (simp_all only: of_int_le_iff)
  also have "\<dots> = 2 powi 53 * 2 powi (ilog2 x - 52)"
    by simp
  also have "\<dots> = 2 powi (ilog2 x + 1)"
    by (subst power_int_add [symmetric]) (simp_all add: add.commute)
  finally show "binary64 x \<le> 2 powi (ilog2 x + 1)" by (simp only: binary64_pos_eq [OF assms])
qed

lemma binary64_pos: "0 < x \<Longrightarrow> 0 < binary64 x"
  using binary64_bounds(1) [of x] by (rule_tac less_le_trans [of _ "2 powi (ilog2 x)"]) simp_all

lemma binary64_mono:
  assumes "0 < x" "x \<le> y"
  shows "binary64 x \<le> binary64 y"
proof -
  have y: "0 < y" using assms by simp
  have le: "ilog2 x \<le> ilog2 y" using assms by (rule ilog2_mono)
  show ?thesis
  proof (cases "ilog2 x = ilog2 y")
    case True
    have "x * 2 powi (52 - ilog2 y) \<le> y * 2 powi (52 - ilog2 y)"
      using assms(2) by (intro mult_right_mono) simp_all
    then have "rne (x * 2 powi (52 - ilog2 y)) \<le> rne (y * 2 powi (52 - ilog2 y))"
      by (rule rne_mono)
    then have "(of_int (rne (x * 2 powi (52 - ilog2 y))) :: rat) * 2 powi (ilog2 y - 52)
        \<le> of_int (rne (y * 2 powi (52 - ilog2 y))) * 2 powi (ilog2 y - 52)"
      by (intro mult_right_mono) simp_all
    then show ?thesis
      by (simp only: binary64_pos_eq [OF assms(1)] binary64_pos_eq [OF y] True)
  next
    case False
    then have "ilog2 x + 1 \<le> ilog2 y" using le by simp
    then have "(2::rat) powi (ilog2 x + 1) \<le> 2 powi (ilog2 y)"
      by (intro power_int_increasing) simp_all
    then show ?thesis
      using binary64_bounds(2) [OF assms(1)] binary64_bounds(1) [OF y] by linarith
  qed
qed

lemma binary64_of_int_small: "binary64 1 = 1" "binary64 100 = 100"
  by code_simp+


section \<open>The notifications of a job\<close>

lemma progress_percent_eq:
  assumes "0 < n"
  shows "progress_percent i n = Inr (truncated_percent i n)"
proof -
  let ?x = "binary64 (binary64 (of_nat (i + 1) / of_nat n) * 100)"
  have q: "(0::rat) < of_nat (i + 1) / of_nat n" using assms by simp
  have "0 < binary64 (of_nat (i + 1) / of_nat n) * 100"
    using binary64_pos [OF q] by simp
  then have "0 \<le> ?x"
    using binary64_pos less_imp_le by blast
  then have "py_int ?x = \<lfloor>?x\<rfloor>" by (simp only: py_int_def if_True)
  moreover have "progress_percent i n = Inr (py_int ?x)"
    using assms by (simp add: progress_percent_def py_truediv_def py_float_mul_def add.commute)
  ultimately show ?thesis by (simp only: truncated_percent_def)
qed

lemma truncated_percent_mono:
  assumes "0 < n" "i \<le> j"
  shows "truncated_percent i n \<le> truncated_percent j n"
proof -
  have qi: "(0::rat) < of_nat (i + 1) / of_nat n" using assms by simp
  have "(of_nat (i + 1) :: rat) / of_nat n \<le> of_nat (j + 1) / of_nat n"
    using assms by (simp add: divide_right_mono)
  then have "binary64 (of_nat (i + 1) / of_nat n) \<le> binary64 (of_nat (j + 1) / of_nat n)"
    using qi by (rule binary64_mono [rotated])
  then have "binary64 (of_nat (i + 1) / of_nat n) * 100 \<le> binary64 (of_nat (j + 1) / of_nat n) * 100"
    by simp
  moreover have "0 < binary64 (of_nat (i + 1) / of_nat n) * 100"
    using binary64_pos [OF qi] by simp
  ultimately have "binary64 (binary64 (of_nat (i + 1) / of_nat n) * 100)
      \<le> binary64 (binary64 (of_nat (j + 1) / of_nat n) * 100)"
    by (rule binary64_mono [rotated])
  then show ?thesis unfolding truncated_percent_def by (rule floor_mono)
qed

lemma truncated_percent_last:
  assumes "0 < n"
  shows "truncated_percent (n - 1) n = 100"
proof -
  have "(of_nat (n - 1 + 1) :: rat) / of_nat n = 1" using assms by simp
  then show ?thesis
    unfolding truncated_percent_def by (simp only: binary64_of_int_small mult_1 floor_numeral)
qed

text \<open>
  The rounding of the two float operations shows: for the 29th of 100 files the quotient
  is the double below 0.29, its product with 100 is the double below 29, and the value
  reported is 28.
\<close>

lemma truncated_percent_float_effect: "truncated_percent 28 100 = 28"
  by code_simp

lemma length_conversions: "length (conversions X self fs w) = length fs"
  by (induction fs arbitrary: w) (simp_all add: split_beta Let_def)

lemma length_run_loop: "length (fst (run_loop X self n i fs w)) = length fs"
  by (induction fs arbitrary: i w) (simp_all add: split_beta Let_def)

lemma run_loop_nth:
  "k < length fs \<Longrightarrow>
   fst (run_loop X self n i fs w) ! k =
     (case snd (conversions X self fs w ! k) of
        Inl e \<Rightarrow> Error e
      | Inr _ \<Rightarrow> (case progress_percent (i + k) n of Inl e \<Rightarrow> Error e | Inr p \<Rightarrow> Progress p))"
proof (induction fs arbitrary: i w k)
  case Nil
  then show ?case by simp
next
  case (Cons f fs)
  show ?case
  proof (cases k)
    case 0
    then show ?thesis by (simp add: split_beta Let_def split: sum.splits)
  next
    case (Suc k')
    then have "k' < length fs" using Cons.prems by simp
    from Cons.IH [OF this] show ?thesis
      by (simp add: split_beta Let_def Suc split: sum.splits)
  qed
qed

lemma length_run: "length (fst (run X self w)) = Suc (length (files self))"
  by (simp add: run_def split_beta Let_def length_run_loop)

lemma run_last: "last (fst (run X self w)) = Finished"
  by (simp add: run_def split_beta Let_def)

lemma run_nth_Finished: "fst (run X self w) ! length (files self) = Finished"
  by (simp add: run_def split_beta Let_def nth_append length_run_loop)

lemma run_nth:
  assumes "k < length (files self)"
  shows "fst (run X self w) ! k =
     (case snd (conversions X self (files self) w ! k) of
        Inl e \<Rightarrow> Error e
      | Inr _ \<Rightarrow> Progress (truncated_percent k (length (files self))))"
proof -
  have n: "0 < length (files self)" using assms by auto
  have "fst (run X self w) ! k = fst (run_loop X self (length (files self)) 0 (files self) w) ! k"
    using assms by (simp add: run_def split_beta Let_def nth_append length_run_loop)
  then show ?thesis
    using run_loop_nth [OF assms, of X self "length (files self)" 0 w]
    by (simp add: progress_percent_eq [OF n] split: sum.splits)
qed

lemma convert_error_shape:
  "fst (convert_to_dds X self p out w) = Inl msg \<Longrightarrow>
   \<exists>reason. msg = ''Error converting '' @ p @ '': '' @ reason"
  by (auto simp: convert_to_dds_def split: prod.splits sum.splits)

lemma convert_fails_iff:
  "isl (fst (convert_to_dds X self p out w)) \<longleftrightarrow>
     (case execute_conversion X self p w of
        (Inl e, w1) \<Rightarrow> True
      | (Inr u, w1) \<Rightarrow>
          (case cleanup_temp_png self w1 of
             (Inl e, w2) \<Rightarrow> True
           | (Inr u, w2) \<Rightarrow> isl (fst (rename_output self p w2))))"
  by (auto simp: convert_to_dds_def split: prod.splits sum.splits)

lemma execute_fails_decode:
  "decode_fails X p w \<Longrightarrow> isl (fst (execute_conversion X self p w))"
  by (auto simp: decode_fails_def execute_conversion_def split: sum.splits)

lemma execute_fails_launch:
  "launch_fails X self p w \<Longrightarrow> isl (fst (execute_conversion X self p w))"
  by (auto simp: launch_fails_def tool_result_def execute_conversion_def Let_def
      split: sum.splits option.splits)

lemma execute_fails_exit:
  "nonzero_exit X self p w \<Longrightarrow> isl (fst (execute_conversion X self p w))"
  by (auto simp: nonzero_exit_def tool_result_def execute_conversion_def Let_def
      split: sum.splits option.splits prod.splits)

lemma execute_fails_convert_fails:
  "isl (fst (execute_conversion X self p w)) \<Longrightarrow> isl (fst (convert_to_dds X self p out w))"
  by (auto simp: convert_fails_iff split: prod.splits sum.splits)

lemma conversions_nth:
  "i < length fs \<Longrightarrow>
   snd (conversions X self fs w ! i) =
     fst (convert_to_dds X self (fs ! i) (output_path_of self (fs ! i)) (fst (conversions X self fs w ! i)))"
proof (induction fs arbitrary: w i)
  case Nil
  then show ?case by simp
next
  case (Cons f fs)
  show ?case
  proof (cases i)
    case 0
    then show ?thesis by (simp add: split_beta)
  next
    case (Suc j)
    then have "j < length fs" using Cons.prems by simp
    from Cons.IH [OF this] show ?thesis by (simp add: split_beta Suc)
  qed
qed

lemma run_loop_errors:
  assumes "0 < n"
  shows "filter is_Error (fst (run_loop X self n i fs w)) =
         map (\<lambda>c. Error (projl (snd c))) (filter (\<lambda>c. isl (snd c)) (conversions X self fs w))"
proof (induction fs arbitrary: i w)
  case Nil
  show ?case by simp
next
  case (Cons f fs)
  show ?case
    by (simp add: split_beta Let_def Cons.IH progress_percent_eq [OF assms] split: sum.splits)
qed

lemma run_errors:
  "filter is_Error (fst (run X self w)) =
   map (\<lambda>c. Error (projl (snd c))) (filter (\<lambda>c. isl (snd c)) (conversions X self (files self) w))"
proof (cases "files self")
  case Nil
  then show ?thesis by (simp add: run_def)
next
  case (Cons f fs)
  then have "0 < length (files self)" by simp
  from run_loop_errors [OF this, of X self 0 "files self" w] show ?thesis
    by (simp add: run_def split_beta Let_def)
qed

lemma critical_deliver:
  "filter is_CriticalBox (deliver ev) = (case ev of Error m \<Rightarrow> [CriticalBox ''Error'' m] | _ \<Rightarrow> [])"
  by (simp add: deliver_def update_progress_def conversion_finished_def show_error_def
      split: event.splits)

lemma run_loop_dialogs:
  assumes "0 < n"
  shows "filter is_CriticalBox (concat (map deliver (fst (run_loop X self n i fs w)))) =
         map (\<lambda>c. CriticalBox ''Error'' (projl (snd c)))
             (filter (\<lambda>c. isl (snd c)) (conversions X self fs w))"
proof (induction fs arbitrary: i w)
  case Nil
  show ?case by simp
next
  case (Cons f fs)
  show ?case
    by (simp add: split_beta Let_def Cons.IH critical_deliver progress_percent_eq [OF assms]
        split: sum.splits)
qed

section \<open>What one conversion does to the disk and the log\<close>

lemma launches_os_remove:
  "filter is_Launch (calls (snd (os_remove p w))) = filter is_Launch (calls w)"
  by (simp add: os_remove_def)

lemma launches_os_rename:
  "filter is_Launch (calls (snd (os_rename a b w))) = filter is_Launch (calls w)"
  by (simp add: os_rename_def split: option.splits)

lemma launches_cleanup:
  "filter is_Launch (calls (snd (cleanup_temp_png self w))) = filter is_Launch (calls w)"
  by (simp add: cleanup_temp_png_def Let_def launches_os_remove)

lemma launches_rename_output:
  "filter is_Launch (calls (snd (rename_output self p w))) = filter is_Launch (calls w)"
proof -
  have "filter is_Launch (calls (snd (os_rename a b (snd (os_remove c w))))) = filter is_Launch (calls w)"
    for a b c
    by (simp only: launches_os_rename launches_os_remove)
  then show ?thesis
    by (auto simp: rename_output_def Let_def launches_os_rename split: prod.splits sum.splits)
       (metis snd_conv launches_os_remove)+
qed

lemma launches_execute:
  "filter is_Launch (calls (snd (execute_conversion X self p w))) =
     filter is_Launch (calls w) @
       (case tool_result X self p w of
          None \<Rightarrow> []
        | Some r \<Rightarrow> [Launch (texconv_cmd (compression_flag (dds_format self)) (output_dir self)
                               (os_path_join (output_dir self) ''temp.png''))])"
  by (simp add: execute_conversion_def tool_result_def Let_def split: sum.splits prod.splits)

lemma launches_convert:
  "filter is_Launch (calls (snd (convert_to_dds X self p out w))) =
     filter is_Launch (calls w) @
       (case tool_result X self p w of
          None \<Rightarrow> []
        | Some r \<Rightarrow> [Launch (texconv_cmd (compression_flag (dds_format self)) (output_dir self)
                               (os_path_join (output_dir self) ''temp.png''))])"
proof -
  obtain r1 w1 where e: "execute_conversion X self p w = (r1, w1)" by (cases "execute_conversion X self p w")
  obtain r2 w2 where c: "cleanup_temp_png self w1 = (r2, w2)" by (cases "cleanup_temp_png self w1")
  obtain r3 w3 where r: "rename_output self p w2 = (r3, w3)" by (cases "rename_output self p w2")
  have l1: "filter is_Launch (calls w1) = filter is_Launch (calls w) @
       (case tool_result X self p w of
          None \<Rightarrow> []
        | Some r \<Rightarrow> [Launch (texconv_cmd (compression_flag (dds_format self)) (output_dir self)
                               (os_path_join (output_dir self) ''temp.png''))])"
    using launches_execute [of X self p w] by (simp add: e)
  have l2: "filter is_Launch (calls w2) = filter is_Launch (calls w1)"
    using launches_cleanup [of self w1] by (simp add: c)
  have l3: "filter is_Launch (calls w3) = filter is_Launch (calls w2)"
    using launches_rename_output [of self p w2] by (simp add: r)
  have "snd (convert_to_dds X self p out w) = w1 \<or> snd (convert_to_dds X self p out w) = w2
        \<or> snd (convert_to_dds X self p out w) = w3"
    by (simp add: convert_to_dds_def e c r split: sum.splits)
  then show ?thesis using l1 l2 l3 by auto
qed


lemma compression_flag_default:
  "f \<notin> {''DXT1'', ''DXT3'', ''DXT5''} \<Longrightarrow> compression_flag f = ''-f DXT5''"
  by (simp add: compression_flag_def)

lemma last_os_path_join: "b \<noteq> [] \<Longrightarrow> last (os_path_join a b) = last b"
  by (simp add: os_path_join_def)

lemma temp_dds_not_temp_png: "os_path_join a ''temp.dds'' \<noteq> os_path_join a ''temp.png''"
  by (simp add: os_path_join_def)

lemma output_path_not_temp_png: "output_path_of self p \<noteq> os_path_join (output_dir self) ''temp.png''"
proof
  assume "output_path_of self p = os_path_join (output_dir self) ''temp.png''"
  then have "last (output_path_of self p) = last (os_path_join (output_dir self) ''temp.png'')"
    by simp
  then show False
    by (simp add: output_path_of_def Let_def last_os_path_join)
qed



lemma execute_success:
  assumes "tool_result X self p w = Some (Inr (0, err, d))"
  shows "execute_conversion X self p w =
           (Inr (), \<lparr>disk = d,
                     calls = calls w @ [Save (os_path_join (output_dir self) ''temp.png''),
                       Launch (texconv_cmd (compression_flag (dds_format self)) (output_dir self)
                                 (os_path_join (output_dir self) ''temp.png''))]\<rparr>)"
  using assms
  by (auto simp: tool_result_def execute_conversion_def Let_def split: sum.splits)

lemma cleanup_result:
  "cleanup_temp_png self w =
     (Inr (), \<lparr>disk = (disk w)(os_path_join (output_dir self) ''temp.png'' := None),
               calls = calls w @ (if disk w (os_path_join (output_dir self) ''temp.png'') \<noteq> None
                                  then [Remove (os_path_join (output_dir self) ''temp.png'')] else [])\<rparr>)"
  by (cases w) (auto simp: cleanup_temp_png_def os_path_exists_def os_remove_def Let_def)

lemma rename_output_result:
  assumes "disk w (os_path_join (output_dir self) ''temp.dds'') = Some dds"
    and "output_path_of self p \<noteq> os_path_join (output_dir self) ''temp.dds''"
  shows "rename_output self p w =
     (Inr (), \<lparr>disk = ((disk w)(os_path_join (output_dir self) ''temp.dds'' := None))
                        (output_path_of self p \<mapsto> dds),
               calls = calls w @ (if disk w (output_path_of self p) \<noteq> None
                                  then [Remove (output_path_of self p)] else [])
                        @ [Rename (os_path_join (output_dir self) ''temp.dds'') (output_path_of self p)]\<rparr>)"
  using assms
  by (auto simp: rename_output_def output_path_of_def os_path_exists_def os_remove_def
      os_rename_def Let_def fun_upd_twist)

lemma rename_output_onto_itself:
  assumes "disk w (os_path_join (output_dir self) ''temp.dds'') = Some dds"
    and "output_path_of self p = os_path_join (output_dir self) ''temp.dds''"
  shows "isl (fst (rename_output self p w))"
  using assms
  by (auto simp: rename_output_def output_path_of_def os_path_exists_def os_remove_def
      os_rename_def Let_def)

lemma after_tool_success:
  assumes t: "tool_result X self p w = Some (Inr (0, err, d))"
  shows "\<exists>w2. disk w2 = d(os_path_join (output_dir self) ''temp.png'' := None)
          \<and> convert_to_dds X self p out w =
              (case rename_output self p w2 of
                 (Inl e, w') \<Rightarrow> (Inl (''Error converting '' @ p @ '': '' @ e), w')
               | (Inr u, w') \<Rightarrow> (Inr u, w'))"
proof -
  define w1 where "w1 = \<lparr>disk = d, calls = calls w @ [Save (os_path_join (output_dir self) ''temp.png''),
       Launch (texconv_cmd (compression_flag (dds_format self)) (output_dir self)
                 (os_path_join (output_dir self) ''temp.png''))]\<rparr>"
  define w2 where "w2 = \<lparr>disk = (disk w1)(os_path_join (output_dir self) ''temp.png'' := None),
       calls = calls w1 @ (if disk w1 (os_path_join (output_dir self) ''temp.png'') \<noteq> None
                           then [Remove (os_path_join (output_dir self) ''temp.png'')] else [])\<rparr>"
  have e: "execute_conversion X self p w = (Inr (), w1)"
    unfolding w1_def using t by (rule execute_success)
  have c: "cleanup_temp_png self w1 = (Inr (), w2)"
    unfolding w2_def by (rule cleanup_result)
  have "disk w2 = d(os_path_join (output_dir self) ''temp.png'' := None)"
    by (simp add: w2_def w1_def)
  moreover have "convert_to_dds X self p out w =
              (case rename_output self p w2 of
                 (Inl e, w') \<Rightarrow> (Inl (''Error converting '' @ p @ '': '' @ e), w')
               | (Inr u, w') \<Rightarrow> (Inr u, w'))"
    by (simp only: convert_to_dds_def e c prod.case sum.case)
  ultimately show ?thesis by blast
qed

lemma convert_success:
  assumes t: "tool_result X self p w = Some (Inr (0, err, d))"
    and dds: "d (os_path_join (output_dir self) ''temp.dds'') = Some dds"
    and ne: "output_path_of self p \<noteq> os_path_join (output_dir self) ''temp.dds''"
  shows "fst (convert_to_dds X self p out w) = Inr ()"
    and "disk (snd (convert_to_dds X self p out w)) (output_path_of self p) = Some dds"
    and "d (output_path_of self p) \<noteq> None \<Longrightarrow>
         \<exists>pre. calls (snd (convert_to_dds X self p out w)) =
           pre @ [Remove (output_path_of self p),
                  Rename (os_path_join (output_dir self) ''temp.dds'') (output_path_of self p)]"
proof -
  let ?png = "os_path_join (output_dir self) ''temp.png''"
  let ?dds = "os_path_join (output_dir self) ''temp.dds''"
  from after_tool_success [OF t, where out = out] obtain w2
    where w2: "disk w2 = d(?png := None)"
      and conv: "convert_to_dds X self p out w =
              (case rename_output self p w2 of
                 (Inl e, w') \<Rightarrow> (Inl (''Error converting '' @ p @ '': '' @ e), w')
               | (Inr u, w') \<Rightarrow> (Inr u, w'))"
    by blast
  have d2: "disk w2 ?dds = Some dds"
    using dds temp_dds_not_temp_png [of "output_dir self"] by (simp add: w2)
  note r = rename_output_result [OF d2 ne]
  show "fst (convert_to_dds X self p out w) = Inr ()" by (simp add: conv r)
  show "disk (snd (convert_to_dds X self p out w)) (output_path_of self p) = Some dds"
    by (simp add: conv r)
  show "\<exists>pre. calls (snd (convert_to_dds X self p out w)) =
           pre @ [Remove (output_path_of self p), Rename ?dds (output_path_of self p)]"
    if "d (output_path_of self p) \<noteq> None"
  proof -
    have "disk w2 (output_path_of self p) \<noteq> None"
      using that output_path_not_temp_png [of self p] by (simp add: w2)
    then have "calls (snd (convert_to_dds X self p out w)) =
        calls w2 @ [Remove (output_path_of self p), Rename ?dds (output_path_of self p)]"
      by (simp add: conv r)
    then show ?thesis by blast
  qed
qed

lemma convert_onto_temp_fails:
  assumes t: "tool_result X self p w = Some (Inr (0, err, d))"
    and dds: "d (os_path_join (output_dir self) ''temp.dds'') = Some dds"
    and eq: "output_path_of self p = os_path_join (output_dir self) ''temp.dds''"
  shows "isl (fst (convert_to_dds X self p out w))"
proof -
  let ?png = "os_path_join (output_dir self) ''temp.png''"
  let ?dds = "os_path_join (output_dir self) ''temp.dds''"
  from after_tool_success [OF t, where out = out] obtain w2
    where w2: "disk w2 = d(?png := None)"
      and conv: "convert_to_dds X self p out w =
              (case rename_output self p w2 of
                 (Inl e, w') \<Rightarrow> (Inl (''Error converting '' @ p @ '': '' @ e), w')
               | (Inr u, w') \<Rightarrow> (Inr u, w'))"
    by blast
  have d2: "disk w2 ?dds = Some dds"
    using dds temp_dds_not_temp_png [of "output_dir self"] by (simp add: w2)
  from rename_output_onto_itself [OF d2 eq] show ?thesis
    by (auto simp: conv split: prod.splits sum.splits)
qed

lemma convert_replaces_existing_output:
  assumes "tool_result X self p w = Some (Inr (0, err, d))"
    and "d (os_path_join (output_dir self) ''temp.dds'') = Some dds"
    and "fst (convert_to_dds X self p out w) = Inr ()"
  shows "disk (snd (convert_to_dds X self p out w)) (output_path_of self p) = Some dds
         \<and> (d (output_path_of self p) \<noteq> None \<longrightarrow>
              (\<exists>pre. calls (snd (convert_to_dds X self p out w)) =
                 pre @ [Remove (output_path_of self p),
                        Rename (os_path_join (output_dir self) ''temp.dds'') (output_path_of self p)]))"
proof -
  have ne: "output_path_of self p \<noteq> os_path_join (output_dir self) ''temp.dds''"
  proof
    assume "output_path_of self p = os_path_join (output_dir self) ''temp.dds''"
    from convert_onto_temp_fails [OF assms(1,2) this, of out] show False
      by (simp add: assms(3))
  qed
  from convert_success(2,3) [OF assms(1,2) ne] show ?thesis by blast
qed

lemma run_loop_append:
  "run_loop X self n i (xs @ ys) w =
     (fst (run_loop X self n i xs w) @ fst (run_loop X self n (i + length xs) ys (snd (run_loop X self n i xs w))),
      snd (run_loop X self n (i + length xs) ys (snd (run_loop X self n i xs w))))"
  by (induction xs arbitrary: i w) (simp_all add: split_beta Let_def)

lemma conversions_world:
  "k < length fs \<Longrightarrow>
   fst (conversions X self fs w ! k) = snd (run_loop X self n i (take k fs) w)"
proof (induction fs arbitrary: w k i)
  case Nil
  then show ?case by simp
next
  case (Cons f fs)
  show ?case
  proof (cases k)
    case 0
    then show ?thesis by (simp add: split_beta)
  next
    case (Suc m)
    then have "m < length fs" using Cons.prems by simp
    from Cons.IH [OF this] show ?thesis by (simp add: split_beta Let_def Suc)
  qed
qed

lemma world_after_step:
  assumes "k < length (files self)"
  shows "world_after X self w k =
           snd (convert_to_dds X self (files self ! k) (output_path_of self (files self ! k))
                  (fst (conversions X self (files self) w ! k)))"
proof -
  let ?n = "length (files self)"
  have "take (Suc k) (files self) = take k (files self) @ [files self ! k]"
    using assms by (rule take_Suc_conv_app_nth)
  then have "world_after X self w k =
      snd (run_loop X self ?n (0 + length (take k (files self))) [files self ! k]
             (snd (run_loop X self ?n 0 (take k (files self)) w)))"
    by (simp only: world_after_def run_loop_append snd_conv)
  also have "snd (run_loop X self ?n 0 (take k (files self)) w) = fst (conversions X self (files self) w ! k)"
    using conversions_world [OF assms, of X self w ?n 0] by simp
  finally show ?thesis by (simp add: split_beta Let_def)
qed

lemma world_after_last:
  assumes "Suc k = length (files self)"
  shows "world_after X self w k = snd (run X self w)"
  using assms by (simp add: world_after_def run_def split_beta Let_def)

section \<open>Progress notifications\<close>

text \<open>
  Claim C1, as the code has it. For a job whose \<open>N\<close> files all convert, the worker emits
  exactly \<open>N\<close> progress notifications and then the completion notification; the
  \<open>i\<close>-th value is the binary64 value of \<open>(i + 1) / N * 100\<close> rounded down (not rounded to
  the nearest integer); the values never decrease and the last one is 100.
\<close>

theorem progress_when_all_convert:
  assumes "all_converted X self w"
  shows "fst (run X self w) =
           map (\<lambda>i. Progress (truncated_percent i (length (files self)))) [0..<length (files self)]
             @ [Finished]
         \<and> sorted (map (\<lambda>i. truncated_percent i (length (files self))) [0..<length (files self)])
         \<and> (files self \<noteq> [] \<longrightarrow>
              fst (run X self w) ! (length (files self) - 1) = Progress 100)"
proof -
  let ?N = "length (files self)"
  let ?evs = "map (\<lambda>i. Progress (truncated_percent i ?N)) [0..<?N] @ [Finished]"
  have conv: "\<not> isl (snd (conversions X self (files self) w ! k))" if "k < ?N" for k
    using assms that by (simp add: all_converted_def list_all_length length_conversions)
  have nth: "fst (run X self w) ! k = Progress (truncated_percent k ?N)" if "k < ?N" for k
    using conv [OF that] run_nth [OF that, of X w] by (simp split: sum.splits)
  have "fst (run X self w) = ?evs"
  proof (rule nth_equalityI)
    show "length (fst (run X self w)) = length ?evs" by (simp add: length_run)
  next
    fix k assume "k < length (fst (run X self w))"
    then have "k < ?N \<or> k = ?N" by (auto simp: length_run)
    then show "fst (run X self w) ! k = ?evs ! k"
    proof
      assume "k < ?N"
      then show ?thesis by (simp add: nth nth_append)
    next
      assume "k = ?N"
      then show ?thesis by (simp add: run_nth_Finished nth_append)
    qed
  qed
  moreover have "sorted (map (\<lambda>i. truncated_percent i ?N) [0..<?N])"
    by (auto simp: sorted_iff_nth_mono intro!: truncated_percent_mono)
  moreover have "fst (run X self w) ! (?N - 1) = Progress 100" if "files self \<noteq> []"
  proof -
    have n: "0 < ?N" using that by simp
    then have "?N - 1 < ?N" by simp
    from nth [OF this] show ?thesis by (simp only: truncated_percent_last [OF n])
  qed
  ultimately show ?thesis by blast
qed

text \<open>
  The theorem at a job of three files that all convert: the values are 33, 66 and 100.
\<close>

theorem progress_when_all_convert_witness:
  "all_converted sample_ext (sample_job [''photo.jpg'', ''in/a/logo.png'', ''in/b/logo.svg''] ''DXT5'') sample_world
   \<and> fst (run sample_ext (sample_job [''photo.jpg'', ''in/a/logo.png'', ''in/b/logo.svg''] ''DXT5'') sample_world)
       = [Progress 33, Progress 66, Progress 100, Finished]"
proof -
  let ?J = "sample_job [''photo.jpg'', ''in/a/logo.png'', ''in/b/logo.svg''] ''DXT5''"
  have h: "all_converted sample_ext ?J sample_world" by code_simp
  have v: "map (\<lambda>i. Progress (truncated_percent i (length (files ?J)))) [0..<length (files ?J)] @ [Finished]
           = [Progress 33, Progress 66, Progress 100, Finished]" by code_simp
  from progress_when_all_convert [OF h] v h show ?thesis by simp
qed

text \<open>
  Against claim C1 as stated: in the same job the second notification carries 66, where
  rounding to the nearest integer gives 67.
\<close>

theorem rounded_progress_counterexample:
  "all_converted sample_ext (sample_job [''photo.jpg'', ''in/a/logo.png'', ''in/b/logo.svg''] ''DXT5'') sample_world
   \<and> fst (run sample_ext (sample_job [''photo.jpg'', ''in/a/logo.png'', ''in/b/logo.svg''] ''DXT5'') sample_world) ! 1
       = Progress 66
   \<and> rounded_percent 1 3 = 67"
  by code_simp

text \<open>
  Claim C2, as the code has it. The notification for the file at position \<open>i\<close> is a progress
  value, the binary64 value of \<open>(i + 1) / total * 100\<close> rounded down, when the file
  converts; when its conversion raises, the notification is the error and no progress is
  reported for that file. There is one notification for each file, then the completion.
\<close>

theorem progress_per_file:
  assumes "i < length (files self)"
  shows "fst (run X self w) ! i =
           (case snd (conversions X self (files self) w ! i) of
              Inl e \<Rightarrow> Error e
            | Inr u \<Rightarrow> Progress \<lfloor>binary64 (binary64 (of_nat (i + 1) / of_nat (length (files self))) * 100)\<rfloor>)
         \<and> length (fst (run X self w)) = Suc (length (files self))"
  using run_nth [OF assms, of X w] unfolding truncated_percent_def
  by (simp add: length_run)

text \<open>
  The theorem at both positions of a job whose first file cannot be decoded and whose
  second file converts.
\<close>

theorem progress_per_file_witness:
  "(0::nat) < length (files (sample_job [''in/notes.txt'', ''photo.jpg''] ''DXT1''))
   \<and> (1::nat) < length (files (sample_job [''in/notes.txt'', ''photo.jpg''] ''DXT1''))
   \<and> fst (run sample_ext (sample_job [''in/notes.txt'', ''photo.jpg''] ''DXT1'') sample_world)
       = [Error ''Error converting in/notes.txt: cannot identify image file'', Progress 100, Finished]"
proof -
  let ?J = "sample_job [''in/notes.txt'', ''photo.jpg''] ''DXT1''"
  have h0: "(0::nat) < length (files ?J)" and h1: "(1::nat) < length (files ?J)"
    by (simp_all add: sample_job_def)
  have e: "fst (run sample_ext ?J sample_world)
      = [Error ''Error converting in/notes.txt: cannot identify image file'', Progress 100, Finished]"
    by code_simp
  from progress_per_file [OF h0, of sample_ext sample_world]
       progress_per_file [OF h1, of sample_ext sample_world] h0 h1 e
  show ?thesis by blast
qed

text \<open>
  Against claim C2 as stated: a job of one file that cannot be decoded reports no progress
  at all.
\<close>

theorem progress_after_failure_counterexample:
  "fst (run sample_ext (sample_job [''in/notes.txt''] ''DXT1'') sample_world)
     = [Error ''Error converting in/notes.txt: cannot identify image file'', Finished]"
  by code_simp

section \<open>Failures\<close>

text \<open>
  Claim C3. When the conversion of the file at position \<open>i\<close> raises, in particular when
  the file cannot be decoded, when the process cannot be launched or when the tool exits
  with a non-zero code, the notification for that file is one error whose message holds
  the file's path. The loop goes on: there is one notification for every file, as many
  errors as failed conversions, and the completion notification comes last.
\<close>

theorem failure_is_reported:
  assumes "i < length (files self)"
    and "isl (snd (conversions X self (files self) w ! i))
         \<or> decode_fails X (files self ! i) (fst (conversions X self (files self) w ! i))
         \<or> launch_fails X self (files self ! i) (fst (conversions X self (files self) w ! i))
         \<or> nonzero_exit X self (files self ! i) (fst (conversions X self (files self) w ! i))"
  shows "(\<exists>reason. fst (run X self w) ! i =
                      Error (''Error converting '' @ files self ! i @ '': '' @ reason))
         \<and> length (fst (run X self w)) = Suc (length (files self))
         \<and> length (filter is_Error (fst (run X self w))) =
             length (filter (\<lambda>c. isl (snd c)) (conversions X self (files self) w))
         \<and> last (fst (run X self w)) = Finished"
proof -
  let ?c = "conversions X self (files self) w ! i"
  let ?f = "files self ! i"
  have r: "snd ?c = fst (convert_to_dds X self ?f (output_path_of self ?f) (fst ?c))"
    using assms(1) by (rule conversions_nth)
  have "isl (fst (execute_conversion X self ?f (fst ?c)))"
    if "decode_fails X ?f (fst ?c) \<or> launch_fails X self ?f (fst ?c) \<or> nonzero_exit X self ?f (fst ?c)"
    using that execute_fails_decode execute_fails_launch execute_fails_exit by blast
  then have failed: "isl (snd ?c)"
    using assms(2) r execute_fails_convert_fails by metis
  then obtain msg where msg: "snd ?c = Inl msg" by (cases "snd ?c") simp_all
  then have "fst (convert_to_dds X self ?f (output_path_of self ?f) (fst ?c)) = Inl msg"
    using r by simp
  then obtain reason where "msg = ''Error converting '' @ ?f @ '': '' @ reason"
    using convert_error_shape by blast
  moreover have "fst (run X self w) ! i = Error msg"
    using run_nth [OF assms(1), of X w] msg by simp
  ultimately have "\<exists>reason. fst (run X self w) ! i = Error (''Error converting '' @ ?f @ '': '' @ reason)"
    by blast
  moreover have "length (filter is_Error (fst (run X self w))) =
             length (filter (\<lambda>c. isl (snd c)) (conversions X self (files self) w))"
    by (simp add: run_errors)
  ultimately show ?thesis by (simp add: length_run run_last)
qed

text \<open>
  The theorem at the first two files of a job of three (the first cannot be decoded, the
  tool rejects the second, the third converts), and at a job whose shell cannot be
  started.
\<close>

theorem failure_is_reported_witness:
  "decode_fails sample_ext ''in/notes.txt''
     (fst (conversions sample_ext (sample_job [''in/notes.txt'', ''in/big.png'', ''photo.jpg''] ''DXT3'')
             [''in/notes.txt'', ''in/big.png'', ''photo.jpg''] sample_world ! 0))
   \<and> nonzero_exit sample_ext (sample_job [''in/notes.txt'', ''in/big.png'', ''photo.jpg''] ''DXT3'') ''in/big.png''
     (fst (conversions sample_ext (sample_job [''in/notes.txt'', ''in/big.png'', ''photo.jpg''] ''DXT3'')
             [''in/notes.txt'', ''in/big.png'', ''photo.jpg''] sample_world ! 1))
   \<and> fst (run sample_ext (sample_job [''in/notes.txt'', ''in/big.png'', ''photo.jpg''] ''DXT3'') sample_world)
       = [Error ''Error converting in/notes.txt: cannot identify image file'',
          Error ''Error converting in/big.png: Conversion failed: unsupported'',
          Progress 100, Finished]
   \<and> launch_fails broken_shell_ext (sample_job [''photo.jpg''] ''DXT3'') ''photo.jpg''
     (fst (conversions broken_shell_ext (sample_job [''photo.jpg''] ''DXT3'') [''photo.jpg''] sample_world ! 0))
   \<and> fst (run broken_shell_ext (sample_job [''photo.jpg''] ''DXT3'') sample_world)
       = [Error ''Error converting photo.jpg: [Errno 2] No such file or directory'', Finished]"
proof -
  let ?J = "sample_job [''in/notes.txt'', ''in/big.png'', ''photo.jpg''] ''DXT3''"
  let ?K = "sample_job [''photo.jpg''] ''DXT3''"
  have fs: "files ?J = [''in/notes.txt'', ''in/big.png'', ''photo.jpg'']" "files ?K = [''photo.jpg'']"
    by (simp_all add: sample_job_def)
  have i0: "0 < length (files ?J)" and i1: "1 < length (files ?J)" and k0: "0 < length (files ?K)"
    by (simp_all add: fs)
  have a: "decode_fails sample_ext ''in/notes.txt''
      (fst (conversions sample_ext ?J [''in/notes.txt'', ''in/big.png'', ''photo.jpg''] sample_world ! 0))"
    by code_simp
  have b: "nonzero_exit sample_ext ?J ''in/big.png''
      (fst (conversions sample_ext ?J [''in/notes.txt'', ''in/big.png'', ''photo.jpg''] sample_world ! 1))"
    by code_simp
  have c: "launch_fails broken_shell_ext ?K ''photo.jpg''
      (fst (conversions broken_shell_ext ?K [''photo.jpg''] sample_world ! 0))"
    by code_simp
  have ha: "isl (snd (conversions sample_ext ?J (files ?J) sample_world ! 0))
         \<or> decode_fails sample_ext (files ?J ! 0) (fst (conversions sample_ext ?J (files ?J) sample_world ! 0))
         \<or> launch_fails sample_ext ?J (files ?J ! 0) (fst (conversions sample_ext ?J (files ?J) sample_world ! 0))
         \<or> nonzero_exit sample_ext ?J (files ?J ! 0) (fst (conversions sample_ext ?J (files ?J) sample_world ! 0))"
    using a by (simp add: fs)
  have hb: "isl (snd (conversions sample_ext ?J (files ?J) sample_world ! 1))
         \<or> decode_fails sample_ext (files ?J ! 1) (fst (conversions sample_ext ?J (files ?J) sample_world ! 1))
         \<or> launch_fails sample_ext ?J (files ?J ! 1) (fst (conversions sample_ext ?J (files ?J) sample_world ! 1))
         \<or> nonzero_exit sample_ext ?J (files ?J ! 1) (fst (conversions sample_ext ?J (files ?J) sample_world ! 1))"
    using b by (simp add: fs)
  have hc: "isl (snd (conversions broken_shell_ext ?K (files ?K) sample_world ! 0))
         \<or> decode_fails broken_shell_ext (files ?K ! 0) (fst (conversions broken_shell_ext ?K (files ?K) sample_world ! 0))
         \<or> launch_fails broken_shell_ext ?K (files ?K ! 0) (fst (conversions broken_shell_ext ?K (files ?K) sample_world ! 0))
         \<or> nonzero_exit broken_shell_ext ?K (files ?K ! 0) (fst (conversions broken_shell_ext ?K (files ?K) sample_world ! 0))"
    using c by (simp add: fs)
  have e: "fst (run sample_ext ?J sample_world)
       = [Error ''Error converting in/notes.txt: cannot identify image file'',
          Error ''Error converting in/big.png: Conversion failed: unsupported'',
          Progress 100, Finished]"
    by code_simp
  have f: "fst (run broken_shell_ext ?K sample_world)
       = [Error ''Error converting photo.jpg: [Errno 2] No such file or directory'', Finished]"
    by code_simp
  from failure_is_reported [OF i0 ha] failure_is_reported [OF i1 hb] failure_is_reported [OF k0 hc]
    a b c e f
  show ?thesis by blast
qed

text \<open>
  Claim C8, as the code has it. Errors are not aggregated: every error notification of a
  job is shown in a dialog of its own, in the order of the files, and every file of the
  job is processed.
\<close>

theorem every_error_is_shown:
  "filter is_CriticalBox (job_ui X self w) =
     map (\<lambda>c. CriticalBox ''Error'' (projl (snd c)))
         (filter (\<lambda>c. isl (snd c)) (conversions X self (files self) w))
   \<and> length (conversions X self (files self) w) = length (files self)"
proof (cases "files self")
  case Nil
  then show ?thesis
    by (simp add: job_ui_def run_def critical_deliver)
next
  case (Cons f fs)
  then have "0 < length (files self)" by simp
  from run_loop_dialogs [OF this, of X self 0 "files self" w] show ?thesis
    by (simp add: job_ui_def run_def split_beta Let_def critical_deliver length_conversions)
qed

text \<open>
  Against claim C8 as stated: a job with two failing files shows two error dialogs, not
  only the first.
\<close>

theorem only_first_error_counterexample:
  "filter is_CriticalBox (job_ui sample_ext (sample_job [''in/big.png'', ''in/notes.txt''] ''DXT1'') sample_world)
     = [CriticalBox ''Error'' ''Error converting in/big.png: Conversion failed: unsupported'',
        CriticalBox ''Error'' ''Error converting in/notes.txt: cannot identify image file'']"
  by code_simp

section \<open>The command line and the output file\<close>



text \<open>
  Claim C10. A format that is none of DXT1, DXT3 and DXT5 selects the flag \<^verbatim>\<open>-f DXT5\<close>,
  and the tool is launched with it.
\<close>

theorem unknown_format_defaults_to_dxt5:
  assumes "dds_format self \<notin> {''DXT1'', ''DXT3'', ''DXT5''}"
    and "tool_result X self p w \<noteq> None"
  shows "compression_flag (dds_format self) = ''-f DXT5''
         \<and> filter is_Launch (calls (snd (convert_to_dds X self p out w))) =
             filter is_Launch (calls w) @
             [Launch (''texconv -y -f DXT5 -o '' @ [dquote] @ output_dir self @ [dquote]
                       @ '' '' @ [dquote] @ os_path_join (output_dir self) ''temp.png'' @ [dquote])]"
proof -
  obtain r where r: "tool_result X self p w = Some r" using assms(2) by auto
  have c: "compression_flag (dds_format self) = ''-f DXT5''"
    using assms(1) by (rule compression_flag_default)
  then show ?thesis by (simp add: launches_convert r texconv_cmd_def)
qed

text \<open>
  The theorem at the format text \<^verbatim>\<open>BC7\<close>.
\<close>

theorem unknown_format_defaults_to_dxt5_witness:
  "dds_format (sample_job [''photo.jpg''] ''BC7'') \<notin> {''DXT1'', ''DXT3'', ''DXT5''}
   \<and> tool_result sample_ext (sample_job [''photo.jpg''] ''BC7'') ''photo.jpg'' sample_world \<noteq> None
   \<and> filter is_Launch (calls (snd (convert_to_dds sample_ext (sample_job [''photo.jpg''] ''BC7'')
                                      ''photo.jpg'' ''out/photo.dds'' sample_world)))
       = [Launch (''texconv -y -f DXT5 -o '' @ [dquote] @ ''out'' @ [dquote] @ '' ''
                    @ [dquote] @ ''out/temp.png'' @ [dquote])]"
proof -
  let ?J = "sample_job [''photo.jpg''] ''BC7''"
  have f: "dds_format ?J \<notin> {''DXT1'', ''DXT3'', ''DXT5''}" by (simp add: sample_job_def)
  have h: "tool_result sample_ext ?J ''photo.jpg'' sample_world \<noteq> None" by code_simp
  have o: "output_dir ?J = ''out''" "os_path_join ''out'' ''temp.png'' = ''out/temp.png''"
    by (simp_all add: sample_job_def os_path_join_def)
  have c: "filter is_Launch (calls sample_world) = []" by (simp add: sample_world_def)
  from unknown_format_defaults_to_dxt5 [OF f h, of "''out/photo.dds''"] f h show ?thesis
    by (simp add: o c)
qed

text \<open>
  Claim C9. Take a job and the file at position \<open>j\<close> in it, whose conversion succeeds
  after the tool has left its output \<^verbatim>\<open>temp.dds\<close>. When the loop of \<open>run\<close> has processed
  that file, the path of its base name with the extension \<^verbatim>\<open>.dds\<close> holds the tool's
  output. When a file of that name was there, it is removed and the rename follows
  directly. No error is reported for the file: its notification is a progress value.
  When the file is the last of the job, this is what the disk holds when \<open>run\<close> returns.
  For an earlier file \<open>i\<close> of the same job with the same base name, that path held the
  output made for \<open>i\<close> when the loop had processed \<open>i\<close>: the later output has replaced it.
\<close>

theorem later_output_replaces_earlier:
  assumes j: "j < length (files self)"
    and tj: "tool_result X self (files self ! j) (fst (conversions X self (files self) w ! j))
               = Some (Inr (0, errj, dj))"
    and bj: "dj (os_path_join (output_dir self) ''temp.dds'') = Some b"
    and sj: "snd (conversions X self (files self) w ! j) = Inr ()"
  shows "disk (world_after X self w j) (output_path_of self (files self ! j)) = Some b
         \<and> (dj (output_path_of self (files self ! j)) \<noteq> None \<longrightarrow>
              (\<exists>pre. calls (world_after X self w j) =
                 pre @ [Remove (output_path_of self (files self ! j)),
                        Rename (os_path_join (output_dir self) ''temp.dds'')
                               (output_path_of self (files self ! j))]))
         \<and> is_Progress (fst (run X self w) ! j)
         \<and> (Suc j = length (files self) \<longrightarrow>
              disk (snd (run X self w)) (output_path_of self (files self ! j)) = Some b)
         \<and> (i < j
              \<and> output_path_of self (files self ! i) = output_path_of self (files self ! j)
              \<and> tool_result X self (files self ! i) (fst (conversions X self (files self) w ! i))
                   = Some (Inr (0, erri, di))
              \<and> di (os_path_join (output_dir self) ''temp.dds'') = Some a
              \<and> snd (conversions X self (files self) w ! i) = Inr ()
            \<longrightarrow> disk (world_after X self w i) (output_path_of self (files self ! j)) = Some a)"
proof -
  have at: "disk (world_after X self w k) (output_path_of self (files self ! k)) = Some c
            \<and> (d (output_path_of self (files self ! k)) \<noteq> None \<longrightarrow>
              (\<exists>pre. calls (world_after X self w k) =
                 pre @ [Remove (output_path_of self (files self ! k)),
                        Rename (os_path_join (output_dir self) ''temp.dds'')
                               (output_path_of self (files self ! k))]))"
    if k: "k < length (files self)"
      and t: "tool_result X self (files self ! k) (fst (conversions X self (files self) w ! k))
               = Some (Inr (0, err, d))"
      and c: "d (os_path_join (output_dir self) ''temp.dds'') = Some c"
      and s: "snd (conversions X self (files self) w ! k) = Inr ()"
    for k err d c
  proof -
    have "fst (convert_to_dds X self (files self ! k) (output_path_of self (files self ! k))
                 (fst (conversions X self (files self) w ! k))) = Inr ()"
      using conversions_nth [OF k, of X self w] s by simp
    from convert_replaces_existing_output [OF t c this] show ?thesis
      unfolding world_after_step [OF k] .
  qed
  note atj = at [OF j tj bj sj]
  have p: "is_Progress (fst (run X self w) ! j)"
    using run_nth [OF j, of X w] sj by simp
  have l: "disk (snd (run X self w)) (output_path_of self (files self ! j)) = Some b"
    if "Suc j = length (files self)"
    using atj world_after_last [OF that, of X w] by simp
  have e: "disk (world_after X self w i) (output_path_of self (files self ! j)) = Some a"
    if "i < j
        \<and> output_path_of self (files self ! i) = output_path_of self (files self ! j)
        \<and> tool_result X self (files self ! i) (fst (conversions X self (files self) w ! i))
             = Some (Inr (0, erri, di))
        \<and> di (os_path_join (output_dir self) ''temp.dds'') = Some a
        \<and> snd (conversions X self (files self) w ! i) = Inr ()"
  proof -
    have i: "i < length (files self)" using that j by simp
    from at [OF i, of erri di a] that show ?thesis by simp
  qed
  from atj p l e show ?thesis by blast
qed

text \<open>
  The theorem at a job of three files whose first and last have the base name \<^verbatim>\<open>logo\<close>:
  after the first the path holds the first output, when \<open>run\<close> returns it holds the last.
\<close>

theorem later_output_replaces_earlier_witness:
  "output_path_of (sample_job [''in/a/logo.png'', ''photo.jpg'', ''in/b/logo.svg''] ''DXT3'') ''in/a/logo.png''
     = output_path_of (sample_job [''in/a/logo.png'', ''photo.jpg'', ''in/b/logo.svg''] ''DXT3'') ''in/b/logo.svg''
   \<and> disk (world_after sample_ext (sample_job [''in/a/logo.png'', ''photo.jpg'', ''in/b/logo.svg''] ''DXT3'')
            sample_world 0) ''out/logo.dds''
       = Some ''DDS PNG logo one''
   \<and> disk (snd (run sample_ext (sample_job [''in/a/logo.png'', ''photo.jpg'', ''in/b/logo.svg''] ''DXT3'')
                 sample_world)) ''out/logo.dds''
       = Some ''DDS PNG logo two''
   \<and> is_Progress (fst (run sample_ext (sample_job [''in/a/logo.png'', ''photo.jpg'', ''in/b/logo.svg''] ''DXT3'')
                         sample_world) ! 2)"
proof -
  let ?J = "sample_job [''in/a/logo.png'', ''photo.jpg'', ''in/b/logo.svg''] ''DXT3''"
  let ?C = "conversions sample_ext ?J (files ?J) sample_world"
  have j: "2 < length (files ?J)" and n: "Suc 2 = length (files ?J)" and ij: "(0::nat) < 2"
    by (simp_all add: sample_job_def)
  have f: "files ?J ! 0 = ''in/a/logo.png''" "files ?J ! 2 = ''in/b/logo.svg''"
    by (simp_all add: sample_job_def)
  have o: "os_path_join (output_dir ?J) ''temp.dds'' = ''out/temp.dds''"
    by (simp add: sample_job_def os_path_join_def)
  have p0: "output_path_of ?J ''in/a/logo.png'' = ''out/logo.dds''"
    and p2: "output_path_of ?J ''in/b/logo.svg'' = ''out/logo.dds''"
    by code_simp+
  have "case tool_result sample_ext ?J (files ?J ! 2) (fst (?C ! 2)) of
          Some (Inr (rc, err, d)) \<Rightarrow> rc = 0 \<and> d ''out/temp.dds'' = Some ''DDS PNG logo two''
        | _ \<Rightarrow> False"
    by code_simp
  then obtain errj dj
    where tj: "tool_result sample_ext ?J (files ?J ! 2) (fst (?C ! 2)) = Some (Inr (0, errj, dj))"
      and bj: "dj (os_path_join (output_dir ?J) ''temp.dds'') = Some ''DDS PNG logo two''"
    unfolding o by (auto split: option.splits sum.splits prod.splits)
  have "case tool_result sample_ext ?J (files ?J ! 0) (fst (?C ! 0)) of
          Some (Inr (rc, err, d)) \<Rightarrow> rc = 0 \<and> d ''out/temp.dds'' = Some ''DDS PNG logo one''
        | _ \<Rightarrow> False"
    by code_simp
  then obtain erri di
    where ti: "tool_result sample_ext ?J (files ?J ! 0) (fst (?C ! 0)) = Some (Inr (0, erri, di))"
      and bi: "di (os_path_join (output_dir ?J) ''temp.dds'') = Some ''DDS PNG logo one''"
    unfolding o by (auto split: option.splits sum.splits prod.splits)
  have sj: "snd (?C ! 2) = Inr ()" and si: "snd (?C ! 0) = Inr ()"
    by code_simp+
  have same: "output_path_of ?J (files ?J ! 0) = output_path_of ?J (files ?J ! 2)"
    by (simp only: f p0 p2)
  note inst = later_output_replaces_earlier [OF j tj bj sj,
      where i = 0 and erri = erri and di = di and a = "''DDS PNG logo one''"]
  from inst n have last: "disk (snd (run sample_ext ?J sample_world)) (output_path_of ?J (files ?J ! 2))
      = Some ''DDS PNG logo two''"
    by blast
  from inst ij same ti bi si
  have first: "disk (world_after sample_ext ?J sample_world 0) (output_path_of ?J (files ?J ! 2))
      = Some ''DDS PNG logo one''"
    by blast
  from inst have prog: "is_Progress (fst (run sample_ext ?J sample_world) ! 2)"
    by blast
  from first last prog show ?thesis
    by (simp only: f p0 p2 simp_thms)
qed

text \<open>
  Claim C5 at a job of one file that the tool rejects with exit code 1: the exception of
  line 72 leaves the function before the cleanup of lines 74 to 76, and the temporary
  PNG, which was not on the disk before, is still in the output directory when the job
  has completed.
\<close>

theorem temp_png_left_after_failed_tool:
  "sample_disk ''out/temp.png'' = None
   \<and> fst (run sample_ext (sample_job [''in/big.png''] ''DXT5'') sample_world)
       = [Error ''Error converting in/big.png: Conversion failed: unsupported'', Finished]
   \<and> disk (snd (run sample_ext (sample_job [''in/big.png''] ''DXT5'') sample_world)) ''out/temp.png''
       = Some ''PNG odd''"
  by code_simp

section \<open>The window: launch and folder selection\<close>

text \<open>
  Claim C6. When running \<^verbatim>\<open>texconv -help\<close> raises at launch, because the tool is absent,
  the application shows exactly one dialog, the error dialog, as its last action, never
  shows the main window, and exits with code 1.
\<close>

theorem missing_tool_stops_the_launch:
  assumes "isl (subprocess_run [''texconv'', ''-help''])"
  shows "filter is_dialog (fst (main subprocess_run exec_code)) =
           [CriticalBox ''Error''
              ''texconv not found. Please download it and place in the application directory.'']
         \<and> last (fst (main subprocess_run exec_code)) =
             CriticalBox ''Error''
               ''texconv not found. Please download it and place in the application directory.''
         \<and> WindowShow \<notin> set (fst (main subprocess_run exec_code))
         \<and> snd (main subprocess_run exec_code) = 1"
proof -
  have "\<not> check_texconv subprocess_run"
    using assms by (cases "subprocess_run [''texconv'', ''-help'']") (simp_all add: check_texconv_def)
  then show ?thesis
    by (simp add: main_def app_init_def is_dialog_def)
qed

text \<open>
  The theorem on a machine without the tool.
\<close>

theorem missing_tool_stops_the_launch_witness:
  "isl (texconv_missing [''texconv'', ''-help''])
   \<and> main texconv_missing 0 =
       ([SetWindowTitle ''Image to DDS Converter'', SetMinimumSize 600 400, SetupUi,
         CriticalBox ''Error''
           ''texconv not found. Please download it and place in the application directory.''], 1)"
proof -
  have h: "isl (texconv_missing [''texconv'', ''-help''])" by (simp add: texconv_missing_def)
  have v: "main texconv_missing 0 =
       ([SetWindowTitle ''Image to DDS Converter'', SetMinimumSize 600 400, SetupUi,
         CriticalBox ''Error''
           ''texconv not found. Please download it and place in the application directory.''], 1)"
    by code_simp
  from missing_tool_stops_the_launch [of texconv_missing 0, OF h] h v show ?thesis by blast
qed

text \<open>
  Claim C7. When the user picks a folder and the walk below it finds no file whose
  lower-cased name ends in one of the four image extensions, the warning dialog is the
  only action: no worker is constructed and none is started.
\<close>

theorem folder_without_images_warns:
  assumes "folder_dialog \<noteq> []"
    and "\<forall>(root, dirs, fs) \<in> set (os_walk folder_dialog). \<forall>f \<in> set fs. \<not> is_image_file f"
  shows "select_folder folder_dialog os_walk output_dialog format_text =
           [WarningBox ''Error'' ''No image files found in the selected folder.'']
         \<and> filter is_WorkerCreate (select_folder folder_dialog os_walk output_dialog format_text) = []
         \<and> filter is_WorkerStart (select_folder folder_dialog os_walk output_dialog format_text) = []"
proof -
  have "concat (map (\<lambda>(root, dirs, fs). map (os_path_join root) (filter is_image_file fs))
                    (os_walk folder_dialog)) = []"
    using assms(2) by (auto simp: filter_empty_conv)
  then show ?thesis using assms(1)
    by (simp add: select_folder_def)
qed

text \<open>
  The theorem at a folder that holds a text file, a file named \<^verbatim>\<open>png\<close> without a dot,
  and a subfolder with a markdown file.
\<close>

theorem folder_without_images_warns_witness:
  "''docs'' \<noteq> []
   \<and> list_all (\<lambda>(root, dirs, fs). list_all (\<lambda>f. \<not> is_image_file f) fs) (sample_walk ''docs'')
   \<and> select_folder ''docs'' sample_walk ''out'' ''DXT3'' =
       [WarningBox ''Error'' ''No image files found in the selected folder.'']"
proof -
  have n: "''docs'' \<noteq> []" by simp
  have l: "list_all (\<lambda>(root, dirs, fs). list_all (\<lambda>f. \<not> is_image_file f) fs) (sample_walk ''docs'')"
    by code_simp
  then have h: "\<forall>(root, dirs, fs) \<in> set (sample_walk ''docs''). \<forall>f \<in> set fs. \<not> is_image_file f"
    by (auto simp: list_all_iff)
  from folder_without_images_warns [of "''docs''" sample_walk "''out''" "''DXT3''", OF n h] n l show ?thesis by blast
qed

end
